theory Spec2Isabelle
  imports Main
begin

section \<open>Data model\<close>

text \<open>
  The tool catalog entries (\<open>ManagedTool\<close>), the agent with its optional allowlist, the
  entries of the session's enabled-tool list and the session parameters. An optional
  field or an optional argument of the TypeScript source is an \<open>option\<close>: \<open>None\<close> is
  \<open>undefined\<close>.
\<close>

record ManagedTool =
  name :: string
  is_visible :: bool
  is_available :: bool
  is_auth_required :: bool
  token :: "string option"

record Agent =
  tools :: "string list option"

record EnabledToolRef =
  name :: string
  extra :: "string option"

text \<open>
  \<open>ConfigurableParams\<close> holds the fields of the session parameters that the two source
  files touch. The same record is the type of a patch (\<open>Partial<ConfigurableParams>\<close>):
  there \<open>None\<close> says that the patch has no such key.
\<close>

record ConfigurableParams =
  tools :: "EnabledToolRef list option"
  fileIds :: "string list option"
  deploymentConfig :: "string option"

record session =
  params :: ConfigurableParams
  composerFiles :: "string list"

section \<open>hooks/tools.ts: the available tools\<close>

text \<open>\<open>Array.prototype.some\<close>: true at the first element that satisfies the test.\<close>

fun some :: "('a \<Rightarrow> bool) \<Rightarrow> 'a list \<Rightarrow> bool" where
  "some p [] = False"
| "some p (x # xs) = (if p x then True else some p xs)"

text \<open>\<open>agent?.tools\<close>\<close>

definition requiredTools :: "Agent option \<Rightarrow> string list option" where
  "requiredTools agent = (case agent of None \<Rightarrow> None | Some a \<Rightarrow> Agent.tools a)"

text \<open>
  The memoised value \<open>availableTools\<close> of \<open>useAvailableTools\<close>. \<open>!requiredTools\<close> holds
  of \<open>undefined\<close> only: an array, also the empty one, is truthy.
\<close>

definition availableTools :: "Agent option \<Rightarrow> ManagedTool list option \<Rightarrow> ManagedTool list" where
  "availableTools agent managedTools =
     filter
       (\<lambda>t. is_visible t \<and> is_available t \<and>
            (case requiredTools agent of
               None \<Rightarrow> True
             | Some rts \<Rightarrow> some (\<lambda>rt. rt = ManagedTool.name t) rts))
       (case managedTools of None \<Rightarrow> [] | Some ts \<Rightarrow> ts)"

text \<open>
  The filter rule as the specification words it, for a catalog entry and an optional
  allowlist: visible, available, and the allowlist absent or naming the tool.
\<close>

definition selectable :: "string list option \<Rightarrow> ManagedTool \<Rightarrow> bool" where
  "selectable allowlist t =
     (is_visible t = True \<and> is_available t = True \<and>
      (allowlist = None \<or> ManagedTool.name t \<in> set (case allowlist of None \<Rightarrow> [] | Some ns \<Rightarrow> ns)))"

section \<open>hooks/tools.ts: toggling a tool\<close>

text \<open>
  Modelled from the spec: \<open>setParams\<close> of the parameter store (\<open>@/stores\<close>) is not among
  the sources. The specification gives it merge-patch semantics, last write wins per
  field: a key of the patch replaces the stored field, a key the patch lacks is kept.
\<close>

definition setParams :: "ConfigurableParams \<Rightarrow> session \<Rightarrow> session" where
  "setParams newParams s =
     s\<lparr>params :=
         \<lparr>tools = (case ConfigurableParams.tools newParams of
                     None \<Rightarrow> ConfigurableParams.tools (params s) | Some v \<Rightarrow> Some v),
          fileIds = (case fileIds newParams of None \<Rightarrow> fileIds (params s) | Some v \<Rightarrow> Some v),
          deploymentConfig = (case deploymentConfig newParams of
                     None \<Rightarrow> deploymentConfig (params s) | Some v \<Rightarrow> Some v)\<rparr>\<rparr>"

text \<open>
  Modelled from the spec: \<open>clearComposerFiles\<close> of the files store (\<open>@/stores\<close>) is not
  among the sources. The specification's file-staging collaborator has one operation,
  \<open>clear()\<close>, which clears any files staged for upload.
\<close>

definition clearComposerFiles :: "session \<Rightarrow> session" where
  "clearComposerFiles s = s\<lparr>composerFiles := []\<rparr>"

text \<open>\<open>paramTools ?? []\<close>\<close>

definition enabledTools :: "session \<Rightarrow> EnabledToolRef list" where
  "enabledTools s =
     (case ConfigurableParams.tools (params s) of None \<Rightarrow> [] | Some ts \<Rightarrow> ts)"

text \<open>
  \<open>handleToggle\<close>. The default file loader tool comes from \<open>useDefaultFileLoaderTool\<close>
  (\<open>@/hooks/files\<close>, not among the sources) and is a parameter here; it may be
  \<open>undefined\<close>, and then \<open>defaultFileLoaderTool?.name\<close> is \<open>undefined\<close>, which no
  string equals.
\<close>

definition handleToggle :: "ManagedTool option \<Rightarrow> string \<Rightarrow> bool \<Rightarrow> session \<Rightarrow> session" where
  "handleToggle defaultFileLoaderTool nm checked s =
     (let newParams =
            \<lparr>tools = Some (if checked
                           then enabledTools s @ [\<lparr>name = nm, extra = None\<rparr>]
                           else filter (\<lambda>enabledTool. EnabledToolRef.name enabledTool \<noteq> nm)
                                  (enabledTools s)),
             fileIds = None,
             deploymentConfig = None\<rparr>
      in if (case defaultFileLoaderTool of None \<Rightarrow> False | Some d \<Rightarrow> nm = ManagedTool.name d)
         then setParams (newParams\<lparr>fileIds := Some []\<rparr>) (clearComposerFiles s)
         else setParams newParams s)"

text \<open>The names of the enabled tools, in order; invariant I1 says they are distinct.\<close>

definition enabledNames :: "session \<Rightarrow> string list" where
  "enabledNames s = map EnabledToolRef.name (enabledTools s)"

section \<open>hooks/tools.ts: the Google Drive picker\<close>

text \<open>
  The result that the picker hands to its callback. \<open>docs\<close> is absent when the picker
  was only loaded or was cancelled.
\<close>

record CallbackDoc =
  docId :: string
  type :: string

record PickerCallback =
  action :: string
  docs :: "CallbackDoc list option"

text \<open>
  What running \<open>handleCallback\<close> does to the outside, in order: a notice through
  \<open>info\<close>, or a call of the continuation \<open>callbackFunction\<close> that the caller of the hook
  supplied.
\<close>

datatype effect = Info string | CallbackFunction PickerCallback

text \<open>
  \<open>handleCallback\<close>. \<open>!data.docs\<close> holds of an absent \<open>docs\<close> only: an empty array is
  truthy and goes on to the checks below.
\<close>

definition handleCallback :: "PickerCallback \<Rightarrow> effect list" where
  "handleCallback data =
     (case docs data of
        None \<Rightarrow> []
      | Some ds \<Rightarrow>
          (let folders = filter (\<lambda>doc. type doc = ''folder'') ds;
               files = filter (\<lambda>doc. type doc \<noteq> ''folder'') ds
           in if length folders > 0 \<and> length files > 0
              then [Info ''Please select either files or folders.'']
              else if length files > 5
              then [Info ''You can only select a maximum of 5 files.'']
              else [CallbackFunction data]))"

text \<open>The two public environment values read by the hook; each may be unset.\<close>

record env =
  NEXT_PUBLIC_GOOGLE_DRIVE_CLIENT_ID :: "string option"
  NEXT_PUBLIC_GOOGLE_DRIVE_DEVELOPER_KEY :: "string option"

text \<open>JavaScript truthiness of \<open>string | undefined\<close>: neither \<open>undefined\<close> nor \<open>''\<close>.\<close>

definition truthy :: "string option \<Rightarrow> bool" where
  "truthy v = (case v of None \<Rightarrow> False | Some str \<Rightarrow> str \<noteq> [])"

text \<open>The argument of \<open>openPicker\<close>.\<close>

record PickerConfiguration =
  clientId :: string
  developerKey :: string
  token :: string
  setIncludeFolders :: bool
  setSelectFolderEnabled :: bool
  showUploadView :: bool
  showUploadFolders :: bool
  supportDrives :: bool
  multiselect :: bool
  callbackFunction :: "PickerCallback \<Rightarrow> effect list"

text \<open>What calling the function returned by the hook does: a notice, or opening the picker.\<close>

datatype picker_effect = Notice string | OpenPicker PickerConfiguration

text \<open>
  \<open>useOpenGoogleDrivePicker\<close>, as the effects of the function it returns. The constant
  \<open>TOOL_GOOGLE_DRIVE_ID\<close> (\<open>@/constants\<close>, not among the sources) is a parameter.
  \<open>x || ''\<close> on \<open>string | undefined\<close> is \<open>x\<close> when \<open>x\<close> is a non-empty string and \<open>''\<close>
  otherwise.
\<close>

definition useOpenGoogleDrivePicker ::
  "string \<Rightarrow> env \<Rightarrow> ManagedTool list option \<Rightarrow> picker_effect list" where
  "useOpenGoogleDrivePicker TOOL_GOOGLE_DRIVE_ID e toolsData =
     (let googleDriveTool =
            (case toolsData of
               None \<Rightarrow> None
             | Some ts \<Rightarrow> find (\<lambda>tool. ManagedTool.name tool = TOOL_GOOGLE_DRIVE_ID) ts);
          googleDriveClientId = NEXT_PUBLIC_GOOGLE_DRIVE_CLIENT_ID e;
          googleDriveDeveloperKey = NEXT_PUBLIC_GOOGLE_DRIVE_DEVELOPER_KEY e
      in if \<not> truthy googleDriveClientId \<or> \<not> truthy googleDriveDeveloperKey
         then [Notice ''Google Drive is not available at the moment.'']
         else [OpenPicker
                 \<lparr>clientId = (case googleDriveClientId of None \<Rightarrow> [] | Some c \<Rightarrow> c),
                  developerKey = (case googleDriveDeveloperKey of None \<Rightarrow> [] | Some k \<Rightarrow> k),
                  token = (case googleDriveTool of
                             None \<Rightarrow> []
                           | Some tool \<Rightarrow>
                               (case ManagedTool.token tool of None \<Rightarrow> [] | Some tk \<Rightarrow> tk)),
                  setIncludeFolders = True,
                  setSelectFolderEnabled = True,
                  showUploadView = False,
                  showUploadFolders = False,
                  supportDrives = True,
                  multiselect = True,
                  callbackFunction = handleCallback\<rparr>])"

section \<open>JavaScript objects with string values\<close>

text \<open>
  \<open>Record<string, string>\<close> is a plain object: its own properties, kept here as the list
  of key and value pairs in the order of their creation, keys distinct.

  An array index is a canonical numeral below \<open>2^32 - 1\<close>: decimal digits without a
  leading zero (ECMAScript 6.1.7).
\<close>

type_synonym js_object = "(string \<times> string) list"

definition isDigit :: "char \<Rightarrow> bool" where
  "isDigit c = (c \<in> set ''0123456789'')"

definition toNumber :: "string \<Rightarrow> nat" where
  "toNumber str = foldl (\<lambda>n c. 10 * n + (of_char c - 48)) 0 str"

fun isArrayIndex :: "string \<Rightarrow> bool" where
  "isArrayIndex [] = False"
| "isArrayIndex (c # cs) =
     (list_all isDigit (c # cs) \<and> (cs = [] \<or> c \<noteq> CHR ''0'') \<and> toNumber (c # cs) < 4294967295)"

text \<open>
  The order in which \<open>Object.entries\<close>, \<open>Object.keys\<close> and the spread \<open>{...obj}\<close> visit
  the own properties (OrdinaryOwnPropertyKeys, ECMAScript 10.1.11.1): the array indices
  in ascending numeric order, then the other string keys in the order of creation.
\<close>

definition Object_entries :: "js_object \<Rightarrow> (string \<times> string) list" where
  "Object_entries obj =
     sort_key (\<lambda>(k, v). toNumber k) (filter (\<lambda>(k, v). isArrayIndex k) obj)
     @ filter (\<lambda>(k, v). \<not> isArrayIndex k) obj"

text \<open>
  CreateDataProperty, as a computed key of an object literal does it: an existing own
  property keeps its place and takes the value, a new one goes last.
\<close>

fun createDataProperty :: "string \<Rightarrow> string \<Rightarrow> js_object \<Rightarrow> js_object" where
  "createDataProperty k v [] = [(k, v)]"
| "createDataProperty k v ((k', v') # ps) =
     (if k' = k then (k, v) # ps else (k', v') # createDataProperty k v ps)"

text \<open>
  The assignment \<open>acc[k] = v\<close> of a string \<open>v\<close> to a plain object. Where \<open>acc\<close> has no
  own property \<open>__proto__\<close> the assignment reaches the setter \<open>__proto__\<close> of
  \<open>Object.prototype\<close>, which ignores a value that is neither an object nor \<open>null\<close>
  (ECMAScript 20.1.3.8.2): no own property is created. Every other key is an own data
  property after the assignment.
\<close>

definition assign :: "js_object \<Rightarrow> string \<Rightarrow> string \<Rightarrow> js_object" where
  "assign acc k v =
     (if k = ''__proto__'' \<and> map_of acc k = None then acc else createDataProperty k v acc)"

text \<open>The spread \<open>{...obj}\<close>: a new object that receives the entries of \<open>obj\<close> in their order.\<close>

definition spread :: "js_object \<Rightarrow> js_object" where
  "spread obj = foldl (\<lambda>acc (k, v). createDataProperty k v acc) [] (Object_entries obj)"

text \<open>\<open>Array.prototype.join\<close> on strings.\<close>

fun join :: "string \<Rightarrow> string list \<Rightarrow> string" where
  "join sep [] = []"
| "join sep [x] = x"
| "join sep (x # y # ys) = x @ sep @ join sep (y # ys)"

section \<open>components/EditEnvVariablesButton.tsx: the deployment configuration form\<close>

record Deployment =
  name :: string
  env_vars :: "string list"

text \<open>The three state variables of \<open>EditEnvVariablesModal\<close>.\<close>

record modal =
  deployment :: "string option"
  envVariables :: js_object
  isSubmitting :: bool

text \<open>
  The draft computed for a deployment name, in the initialiser of \<open>envVariables\<close> and in
  \<open>handleDeploymentChange\<close> alike: \<open>deployments\<close> is \<open>undefined\<close> until the catalog has
  loaded, \<open>find\<close> gives the first deployment of that name, \<open>reduce\<close> runs from the left
  over its \<open>env_vars\<close>, and \<open>?? {}\<close> covers both absences.
\<close>

definition emptyEnvVariables :: "Deployment list option \<Rightarrow> string \<Rightarrow> js_object" where
  "emptyEnvVariables deployments newDeployment =
     (let selectedDeployment =
            (case deployments of
               None \<Rightarrow> None
             | Some ds \<Rightarrow> find (\<lambda>d. Deployment.name d = newDeployment) ds)
      in case selectedDeployment of
           None \<Rightarrow> []
         | Some d \<Rightarrow> foldl (\<lambda>acc envVar. assign acc envVar []) [] (env_vars d))"

definition handleDeploymentChange :: "Deployment list option \<Rightarrow> string \<Rightarrow> modal \<Rightarrow> modal" where
  "handleDeploymentChange deployments newDeployment m =
     m\<lparr>deployment := Some newDeployment,
       envVariables := emptyEnvVariables deployments newDeployment\<rparr>"

definition handleEnvVariableChange :: "string \<Rightarrow> string \<Rightarrow> modal \<Rightarrow> modal" where
  "handleEnvVariableChange envVar val m =
     m\<lparr>envVariables := createDataProperty envVar val (spread (envVariables m))\<rparr>"

text \<open>
  What \<open>handleSubmit\<close> does, in order: the state updates of \<open>isSubmitting\<close>, the patch
  given to \<open>setParams\<close>, the call of \<open>onClose\<close>. \<open>!deployment\<close> holds of \<open>undefined\<close> and
  of the empty string.
\<close>

datatype submit_effect = SetIsSubmitting bool | SetParams ConfigurableParams | OnClose

definition serialize :: "js_object \<Rightarrow> string" where
  "serialize obj = join '';'' (map (\<lambda>(k, v). k @ ''='' @ v) (Object_entries obj))"

definition handleSubmit :: "modal \<Rightarrow> submit_effect list" where
  "handleSubmit m =
     (if \<not> truthy (deployment m) then []
      else [SetIsSubmitting True,
            SetParams \<lparr>tools = None, fileIds = None,
                       deploymentConfig = Some (serialize (envVariables m))\<rparr>,
            SetIsSubmitting False,
            OnClose])"

text \<open>
  The draft as the specification sees it after a series of field edits, last write
  first: the value of a variable is its latest edit, or the empty string.
\<close>

definition draftValue :: "(string \<times> string) list \<Rightarrow> string \<Rightarrow> string" where
  "draftValue edits k = (case map_of (rev edits) k of None \<Rightarrow> [] | Some v \<Rightarrow> v)"

definition applyEdits :: "(string \<times> string) list \<Rightarrow> modal \<Rightarrow> modal" where
  "applyEdits edits m = foldl (\<lambda>st (k, v). handleEnvVariableChange k v st) m edits"

section \<open>Auxiliary facts\<close>

subsection \<open>The session after a toggle\<close>

lemma enabledTools_handleToggle:
  "enabledTools (handleToggle d nm checked s) =
     (if checked then enabledTools s @ [\<lparr>EnabledToolRef.name = nm, extra = None\<rparr>]
      else filter (\<lambda>enabledTool. EnabledToolRef.name enabledTool \<noteq> nm) (enabledTools s))"
  by (simp add: handleToggle_def Let_def setParams_def clearComposerFiles_def enabledTools_def)

lemma fileIds_handleToggle:
  "fileIds (params (handleToggle d nm checked s)) =
     (if (case d of None \<Rightarrow> False | Some t \<Rightarrow> nm = ManagedTool.name t) then Some []
      else fileIds (params s))"
  by (simp add: handleToggle_def Let_def setParams_def clearComposerFiles_def)

lemma composerFiles_handleToggle:
  "composerFiles (handleToggle d nm checked s) =
     (if (case d of None \<Rightarrow> False | Some t \<Rightarrow> nm = ManagedTool.name t) then []
      else composerFiles s)"
  by (simp add: handleToggle_def Let_def setParams_def clearComposerFiles_def)

lemma map_name_filter:
  "map EnabledToolRef.name (filter (\<lambda>t. EnabledToolRef.name t \<noteq> nm) ts) =
     filter (\<lambda>n. n \<noteq> nm) (map EnabledToolRef.name ts)"
  by (induction ts) simp_all

subsection \<open>Filters and counts\<close>

lemma filter_nonempty_iff: "(0 < length (filter P xs)) = (\<exists>x\<in>set xs. P x)"
  by (induction xs) auto

subsection \<open>Own properties of an object\<close>

lemma keys_createDataProperty:
  "fst ` set (createDataProperty k v ps) = insert k (fst ` set ps)"
proof (induction ps)
  case Nil
  show ?case by simp
next
  case (Cons p ps)
  obtain a b where p: "p = (a, b)" by (cases p)
  show ?case
    using Cons.IH by (cases "a = k") (simp_all add: p insert_commute)
qed

lemma values_createDataProperty:
  "(a, b) \<in> set (createDataProperty k v ps) \<Longrightarrow> b = v \<or> (a, b) \<in> set ps"
  by (induction ps) (auto split: if_splits)

lemma distinct_createDataProperty:
  "distinct (map fst ps) \<Longrightarrow> distinct (map fst (createDataProperty k v ps))"
proof (induction ps)
  case Nil
  show ?case by simp
next
  case (Cons p ps)
  obtain a b where p: "p = (a, b)" by (cases p)
  show ?case
    using Cons by (cases "a = k") (simp_all add: p keys_createDataProperty)
qed

lemma createDataProperty_new:
  "k \<notin> fst ` set ps \<Longrightarrow> createDataProperty k v ps = ps @ [(k, v)]"
  by (induction ps) auto

lemma createDataProperty_update:
  "k \<in> set ks \<Longrightarrow> distinct ks \<Longrightarrow>
     createDataProperty k v (map (\<lambda>k'. (k', f k')) ks) = map (\<lambda>k'. (k', (f(k := v)) k')) ks"
proof (induction ks)
  case Nil
  then show ?case by simp
next
  case (Cons a ks)
  show ?case
  proof (cases "a = k")
    case True
    then have "k \<notin> set ks" using Cons.prems by simp
    then have "map (\<lambda>k'. (k', (f(k := v)) k')) ks = map (\<lambda>k'. (k', f k')) ks"
      by (intro map_cong) auto
    then show ?thesis using True by simp
  next
    case False
    with Cons show ?thesis by simp
  qed
qed

lemma map_of_None_iff: "(map_of ps k = None) = (k \<notin> fst ` set ps)"
  by (simp add: map_of_eq_None_iff)

lemma keys_assign:
  "''__proto__'' \<notin> fst ` set acc \<Longrightarrow>
     fst ` set (assign acc k v) = fst ` set acc \<union> ({k} - {''__proto__''})"
  by (cases "k = ''__proto__''") (simp_all add: assign_def map_of_None_iff keys_createDataProperty)

text \<open>
  The \<open>reduce\<close> over the variable names, from any accumulator without an own
  \<open>__proto__\<close>: the keys gained are the names other than \<open>__proto__\<close>, the keys stay
  distinct, and empty values stay empty.
\<close>

lemma assign_fold_invariant:
  "''__proto__'' \<notin> fst ` set acc \<Longrightarrow> distinct (map fst acc) \<Longrightarrow> \<forall>p\<in>set acc. snd p = [] \<Longrightarrow>
     fst ` set (foldl (\<lambda>acc envVar. assign acc envVar []) acc ks)
        = fst ` set acc \<union> (set ks - {''__proto__''})
     \<and> distinct (map fst (foldl (\<lambda>acc envVar. assign acc envVar []) acc ks))
     \<and> (\<forall>p\<in>set (foldl (\<lambda>acc envVar. assign acc envVar []) acc ks). snd p = [])"
proof (induction ks arbitrary: acc)
  case Nil
  then show ?case by simp
next
  case (Cons k ks)
  have 1: "''__proto__'' \<notin> fst ` set (assign acc k [])"
    using Cons.prems(1) unfolding keys_assign[OF Cons.prems(1)] by blast
  have 2: "distinct (map fst (assign acc k []))"
    using Cons.prems(2) by (simp add: assign_def distinct_createDataProperty)
  have 3: "\<forall>p\<in>set (assign acc k []). snd p = []"
  proof
    fix p assume "p \<in> set (assign acc k [])"
    then have "p \<in> set acc \<or> p \<in> set (createDataProperty k [] acc)"
      by (simp add: assign_def split: if_splits)
    then show "snd p = []"
      using Cons.prems(3) values_createDataProperty[of "fst p" "snd p" k "[]" acc] by auto
  qed
  have "fst ` set (assign acc k []) \<union> (set ks - {''__proto__''})
      = fst ` set acc \<union> (set (k # ks) - {''__proto__''})"
    unfolding keys_assign[OF Cons.prems(1)] by auto
  then show ?case
    using Cons.IH[OF 1 2 3] by simp
qed

lemma assign_fold_plain:
  "distinct ks \<Longrightarrow> ''__proto__'' \<notin> set ks \<Longrightarrow> set ks \<inter> fst ` set acc = {} \<Longrightarrow>
     foldl (\<lambda>acc envVar. assign acc envVar []) acc ks = acc @ map (\<lambda>k. (k, [])) ks"
proof (induction ks arbitrary: acc)
  case Nil
  then show ?case by simp
next
  case (Cons k ks)
  have "k \<noteq> ''__proto__''" "k \<notin> fst ` set acc"
    using Cons.prems by auto
  then have step: "assign acc k [] = acc @ [(k, [])]"
    by (simp add: assign_def createDataProperty_new)
  have "set ks \<inter> fst ` set (acc @ [(k, [])]) = {}"
    using Cons.prems by auto
  then show ?case
    using Cons.prems Cons.IH[of "acc @ [(k, [])]"] by (simp add: step)
qed

lemma Object_entries_plain:
  assumes "\<forall>k\<in>fst ` set obj. \<not> isArrayIndex k"
  shows "Object_entries obj = obj"
proof -
  have "filter (\<lambda>(k, v). isArrayIndex k) obj = []"
    using assms by (auto simp: filter_empty_conv)
  moreover have "filter (\<lambda>(k, v). \<not> isArrayIndex k) obj = obj"
    using assms by (auto simp: filter_id_conv)
  ultimately show ?thesis
    by (simp add: Object_entries_def)
qed

lemma rebuild:
  "distinct (map fst (acc @ xs)) \<Longrightarrow>
     foldl (\<lambda>acc (k, v). createDataProperty k v acc) acc xs = acc @ xs"
proof (induction xs arbitrary: acc)
  case Nil
  then show ?case by simp
next
  case (Cons x xs)
  obtain k v where x: "x = (k, v)" by (cases x)
  have "k \<notin> fst ` set acc" using Cons.prems x by auto
  then have step: "createDataProperty k v acc = acc @ [(k, v)]"
    by (rule createDataProperty_new)
  have "distinct (map fst ((acc @ [(k, v)]) @ xs))"
    using Cons.prems x by simp
  from Cons.IH[OF this] show ?case
    by (simp add: x step)
qed

lemma spread_plain:
  "distinct (map fst obj) \<Longrightarrow> \<forall>k\<in>fst ` set obj. \<not> isArrayIndex k \<Longrightarrow> spread obj = obj"
  using rebuild[of "[]" obj] by (simp add: spread_def Object_entries_plain)

subsection \<open>The draft under field edits\<close>

lemma draftValue_snoc: "draftValue (edits @ [(k, v)]) = (draftValue edits)(k := v)"
  by (rule ext) (simp add: draftValue_def)

lemma applyEdits_snoc:
  "applyEdits (edits @ [(k, v)]) m = handleEnvVariableChange k v (applyEdits edits m)"
  by (simp add: applyEdits_def)

lemma applyEdits_draft:
  assumes "distinct ks" and "\<forall>k\<in>set ks. \<not> isArrayIndex k"
    and "envVariables m = map (\<lambda>k. (k, [])) ks"
    and "\<forall>e\<in>set edits. fst e \<in> set ks"
  shows "envVariables (applyEdits edits m) = map (\<lambda>k. (k, draftValue edits k)) ks
       \<and> deployment (applyEdits edits m) = deployment m"
  using assms(4)
proof (induction edits rule: rev_induct)
  case Nil
  show ?case using assms(3) by (simp add: applyEdits_def draftValue_def)
next
  case (snoc e edits)
  obtain k v where e: "e = (k, v)" by (cases e)
  let ?obj = "map (\<lambda>k. (k, draftValue edits k)) ks"
  have ih: "envVariables (applyEdits edits m) = ?obj"
    "deployment (applyEdits edits m) = deployment m"
    using snoc by simp_all
  have keys: "map fst ?obj = ks" by (simp add: comp_def)
  have sp: "spread ?obj = ?obj"
  proof (rule spread_plain)
    show "distinct (map fst ?obj)" unfolding keys by (rule assms(1))
    show "\<forall>k\<in>fst ` set ?obj. \<not> isArrayIndex k"
      using assms(2) by (simp add: image_image)
  qed
  have k: "k \<in> set ks" using snoc.prems e by simp
  show ?case
    unfolding e applyEdits_snoc draftValue_snoc
    by (simp add: handleEnvVariableChange_def ih sp createDataProperty_update[OF k assms(1)])
qed

lemma serialize_plain:
  "\<forall>k\<in>set ks. \<not> isArrayIndex k \<Longrightarrow>
     serialize (map (\<lambda>k. (k, f k)) ks) = join '';'' (map (\<lambda>k. k @ ''='' @ f k) ks)"
  by (simp add: serialize_def Object_entries_plain comp_def)

section \<open>The available tools\<close>

text \<open>
  C1. For every catalog and every agent, \<open>availableTools\<close> is the catalog filtered, in
  catalog order, by the specification's rule: visible, available, and the agent's
  allowlist absent or naming the tool. An empty (or absent) catalog and an agent with
  an empty allowlist give the empty list; the function is total, so there is no error.
\<close>

theorem availableTools_filter_rule:
  "availableTools agent managedTools =
     filter (selectable (requiredTools agent)) (case managedTools of None \<Rightarrow> [] | Some ts \<Rightarrow> ts)
   \<and> availableTools agent (Some []) = []
   \<and> availableTools agent None = []
   \<and> availableTools (Some \<lparr>Agent.tools = Some []\<rparr>) managedTools = []"
proof -
  have some_mem: "some (\<lambda>rt. rt = n) rts = (n \<in> set rts)" for n :: string and rts
    by (induction rts) auto
  have rule: "(is_visible t \<and> is_available t \<and>
      (case allow of None \<Rightarrow> True | Some rts \<Rightarrow> some (\<lambda>rt. rt = ManagedTool.name t) rts))
      = selectable allow t" for t allow
    by (cases allow) (simp_all add: selectable_def some_mem)
  have main: "availableTools agent mts =
      filter (selectable (requiredTools agent)) (case mts of None \<Rightarrow> [] | Some ts \<Rightarrow> ts)"
    for agent mts
    unfolding availableTools_def rule ..
  have empty_allow: "filter (selectable (Some [])) ts = []" for ts
    by (induction ts) (simp_all add: selectable_def)
  have "availableTools (Some \<lparr>Agent.tools = Some []\<rparr>) managedTools = []"
    unfolding main by (simp add: requiredTools_def empty_allow)
  moreover have "availableTools agent (Some []) = []" and "availableTools agent None = []"
    unfolding main by simp_all
  ultimately show ?thesis
    using main by blast
qed

text \<open>
  Scenario A of the specification: of a catalog with \<open>web_search\<close> and \<open>drive\<close>, an
  agent that allows \<open>web_search\<close> has that one tool available.
\<close>

theorem availableTools_scenario_A:
  "availableTools (Some \<lparr>Agent.tools = Some [''web_search'']\<rparr>)
     (Some [\<lparr>ManagedTool.name = ''web_search'', is_visible = True, is_available = True,
              is_auth_required = False, token = None\<rparr>,
            \<lparr>ManagedTool.name = ''drive'', is_visible = True, is_available = True,
              is_auth_required = True, token = None\<rparr>])
   = [\<lparr>ManagedTool.name = ''web_search'', is_visible = True, is_available = True,
        is_auth_required = False, token = None\<rparr>]"
  using availableTools_filter_rule
    [of "Some \<lparr>Agent.tools = Some [''web_search'']\<rparr>"
        "Some [\<lparr>ManagedTool.name = ''web_search'', is_visible = True, is_available = True,
                 is_auth_required = False, token = None\<rparr>,
               \<lparr>ManagedTool.name = ''drive'', is_visible = True, is_available = True,
                 is_auth_required = True, token = None\<rparr>]"]
  by (simp add: selectable_def requiredTools_def)

section \<open>Toggling a tool\<close>

text \<open>
  C2, as the code has it. \<open>handleToggle\<close> with \<open>checked\<close> appends an entry without
  looking for the name, so it does not de-duplicate: from an enabled-tool list with
  distinct names, the list after a toggle has distinct names exactly when the toggle
  was off, or was on for a name not yet present. Toggling off always keeps invariant I1;
  toggling on keeps it for the names that are not enabled yet.
\<close>

theorem handleToggle_distinct_iff:
  "distinct (enabledNames s) \<Longrightarrow>
     distinct (enabledNames (handleToggle d nm checked s))
       = (checked \<longrightarrow> nm \<notin> set (enabledNames s))"
  by (simp add: enabledNames_def enabledTools_handleToggle map_name_filter)

theorem handleToggle_distinct_iff_witness:
  "distinct (enabledNames
     (handleToggle None ''drive'' True
        \<lparr>params = \<lparr>tools = Some [\<lparr>EnabledToolRef.name = ''web_search'', extra = None\<rparr>],
                    fileIds = None, deploymentConfig = None\<rparr>,
         composerFiles = []\<rparr>))"
proof -
  let ?s = "\<lparr>params = \<lparr>tools = Some [\<lparr>EnabledToolRef.name = ''web_search'', extra = None\<rparr>],
                         fileIds = None, deploymentConfig = None\<rparr>,
             composerFiles = []\<rparr>"
  have h: "distinct (enabledNames ?s)"
    by (simp add: enabledNames_def enabledTools_def)
  show ?thesis
    using handleToggle_distinct_iff [OF h, of None "''drive''" True]
    by (simp add: enabledNames_def enabledTools_def)
qed

text \<open>
  C2 as stated fails: with \<open>web_search\<close> enabled, toggling \<open>web_search\<close> on again
  leaves two entries of that name.
\<close>

theorem handleToggle_duplicate_counterexample:
  "distinct (enabledNames
     \<lparr>params = \<lparr>tools = Some [\<lparr>EnabledToolRef.name = ''web_search'', extra = None\<rparr>],
                 fileIds = None, deploymentConfig = None\<rparr>,
      composerFiles = []\<rparr>)
   \<and> enabledNames
       (handleToggle None ''web_search'' True
          \<lparr>params = \<lparr>tools = Some [\<lparr>EnabledToolRef.name = ''web_search'', extra = None\<rparr>],
                      fileIds = None, deploymentConfig = None\<rparr>,
           composerFiles = []\<rparr>)
       = [''web_search'', ''web_search'']
   \<and> \<not> distinct (enabledNames
       (handleToggle None ''web_search'' True
          \<lparr>params = \<lparr>tools = Some [\<lparr>EnabledToolRef.name = ''web_search'', extra = None\<rparr>],
                      fileIds = None, deploymentConfig = None\<rparr>,
           composerFiles = []\<rparr>))"
  by (simp add: enabledNames_def handleToggle_def Let_def setParams_def enabledTools_def)

text \<open>
  C8. For every session whose enabled-tool list has no entry of the given name, toggling
  that name on and then off gives back the enabled-tool list as it was, entry for entry
  and in the same order.
\<close>

theorem toggle_on_off:
  "nm \<notin> set (enabledNames s) \<Longrightarrow>
     enabledTools (handleToggle d' nm False (handleToggle d nm True s)) = enabledTools s"
  by (auto simp add: enabledTools_handleToggle enabledNames_def filter_id_conv)

theorem toggle_on_off_witness:
  "enabledTools
     (handleToggle None ''drive'' False
        (handleToggle None ''drive'' True
           \<lparr>params = \<lparr>tools = Some [\<lparr>EnabledToolRef.name = ''web_search'', extra = Some ''cfg''\<rparr>],
                       fileIds = Some [''a''], deploymentConfig = None\<rparr>,
            composerFiles = [''a'']\<rparr>))
   = [\<lparr>EnabledToolRef.name = ''web_search'', extra = Some ''cfg''\<rparr>]"
proof -
  let ?s = "\<lparr>params = \<lparr>tools = Some [\<lparr>EnabledToolRef.name = ''web_search'', extra = Some ''cfg''\<rparr>],
                         fileIds = Some [''a''], deploymentConfig = None\<rparr>,
             composerFiles = [''a'']\<rparr>"
  have h: "''drive'' \<notin> set (enabledNames ?s)"
    by (simp add: enabledNames_def enabledTools_def)
  show ?thesis
    using toggle_on_off [OF h, of None None] by (simp add: enabledTools_def)
qed

text \<open>
  C9. Whatever files were staged and whatever \<open>fileIds\<close> held, toggling the default
  file loader off leaves no staged file, \<open>fileIds\<close> empty, and no enabled tool of that
  name.
\<close>

theorem disable_default_file_loader:
  "composerFiles (handleToggle (Some d) (ManagedTool.name d) False s) = []
   \<and> fileIds (params (handleToggle (Some d) (ManagedTool.name d) False s)) = Some []
   \<and> ManagedTool.name d \<notin> set (enabledNames (handleToggle (Some d) (ManagedTool.name d) False s))"
  by (auto simp add: enabledTools_handleToggle enabledNames_def fileIds_handleToggle
      composerFiles_handleToggle)

text \<open>
  Scenario E of the specification: \<open>file_loader\<close> is the default and is enabled,
  \<open>fileIds\<close> is \<open>["a", "b"]\<close>; after toggling it off the session has no enabled tool,
  no file id and no staged file.
\<close>

theorem disable_default_file_loader_scenario_E:
  "handleToggle
     (Some \<lparr>ManagedTool.name = ''file_loader'', is_visible = True, is_available = True,
             is_auth_required = False, token = None\<rparr>)
     ''file_loader'' False
     \<lparr>params = \<lparr>tools = Some [\<lparr>EnabledToolRef.name = ''file_loader'', extra = None\<rparr>],
                 fileIds = Some [''a'', ''b''], deploymentConfig = None\<rparr>,
      composerFiles = [''a'', ''b'']\<rparr>
   = \<lparr>params = \<lparr>tools = Some [], fileIds = Some [], deploymentConfig = None\<rparr>,
      composerFiles = []\<rparr>"
  using disable_default_file_loader
    [of "\<lparr>ManagedTool.name = ''file_loader'', is_visible = True, is_available = True,
           is_auth_required = False, token = None\<rparr>"
        "\<lparr>params = \<lparr>tools = Some [\<lparr>EnabledToolRef.name = ''file_loader'', extra = None\<rparr>],
                     fileIds = Some [''a'', ''b''], deploymentConfig = None\<rparr>,
          composerFiles = [''a'', ''b'']\<rparr>"]
  by (simp add: handleToggle_def Let_def setParams_def clearComposerFiles_def enabledTools_def)

text \<open>
  C10. The clearing of the files looks at the tool name only. Toggling the default file
  loader on empties \<open>fileIds\<close> and the staged files, as toggling it off does; and for
  any name and any default tool, both directions of the toggle leave the same \<open>fileIds\<close>
  and the same staged files.
\<close>

theorem file_clearing_keyed_on_name:
  "fileIds (params (handleToggle (Some d) (ManagedTool.name d) True s)) = Some []
   \<and> composerFiles (handleToggle (Some d) (ManagedTool.name d) True s) = []
   \<and> fileIds (params (handleToggle (Some d) (ManagedTool.name d) True s))
       = fileIds (params (handleToggle (Some d) (ManagedTool.name d) False s))
   \<and> composerFiles (handleToggle (Some d) (ManagedTool.name d) True s)
       = composerFiles (handleToggle (Some d) (ManagedTool.name d) False s)
   \<and> fileIds (params (handleToggle dflt nm True s))
       = fileIds (params (handleToggle dflt nm False s))
   \<and> composerFiles (handleToggle dflt nm True s) = composerFiles (handleToggle dflt nm False s)"
  by (simp add: fileIds_handleToggle composerFiles_handleToggle)

theorem file_clearing_keyed_on_name_witness:
  "handleToggle
     (Some \<lparr>ManagedTool.name = ''file_loader'', is_visible = True, is_available = True,
             is_auth_required = False, token = None\<rparr>)
     ''file_loader'' True
     \<lparr>params = \<lparr>tools = None, fileIds = Some [''a'', ''b''], deploymentConfig = None\<rparr>,
      composerFiles = [''a'', ''b'']\<rparr>
   = \<lparr>params = \<lparr>tools = Some [\<lparr>EnabledToolRef.name = ''file_loader'', extra = None\<rparr>],
                 fileIds = Some [], deploymentConfig = None\<rparr>,
      composerFiles = []\<rparr>"
  using file_clearing_keyed_on_name
    [of "\<lparr>ManagedTool.name = ''file_loader'', is_visible = True, is_available = True,
           is_auth_required = False, token = None\<rparr>"
        "\<lparr>params = \<lparr>tools = None, fileIds = Some [''a'', ''b''], deploymentConfig = None\<rparr>,
          composerFiles = [''a'', ''b'']\<rparr>"]
  by (simp add: handleToggle_def Let_def setParams_def clearComposerFiles_def enabledTools_def)

section \<open>The picker\<close>

text \<open>
  C3, as the code has it. A picker result without \<open>docs\<close> is dropped silently: no
  notice and no call of the continuation. A result whose \<open>docs\<close> is the empty sequence
  is not dropped: there is no notice either, but the continuation is called with the
  result.
\<close>

theorem handleCallback_absent_or_empty_docs:
  "(docs data = None \<longrightarrow> handleCallback data = [])
   \<and> (docs data = Some [] \<longrightarrow> handleCallback data = [CallbackFunction data])"
  by (simp add: handleCallback_def)

theorem handleCallback_absent_or_empty_docs_witness:
  "handleCallback \<lparr>action = ''cancel'', docs = None\<rparr> = []
   \<and> handleCallback \<lparr>action = ''loaded'', docs = Some []\<rparr>
       = [CallbackFunction \<lparr>action = ''loaded'', docs = Some []\<rparr>]"
  using handleCallback_absent_or_empty_docs [of "\<lparr>action = ''cancel'', docs = None\<rparr>"]
    handleCallback_absent_or_empty_docs [of "\<lparr>action = ''loaded'', docs = Some []\<rparr>"]
  by simp

text \<open>
  C3 as stated fails for the empty sequence: the continuation is called.
\<close>

theorem handleCallback_empty_docs_counterexample:
  "handleCallback \<lparr>action = ''picked'', docs = Some []\<rparr>
     = [CallbackFunction \<lparr>action = ''picked'', docs = Some []\<rparr>]"
  by (simp add: handleCallback_def)

text \<open>
  C4. For every picker result with \<open>docs\<close> present, the rules apply in the order of the
  claim. A result with a folder and a doc of another type gets the mixed-selection
  notice only. A result without a folder and with more than five docs gets the
  too-many-files notice only. Whenever more than five docs are not folders, the
  continuation is not called with any result. A result of folders only, or of at most
  five docs none of which is a folder, is passed unchanged to the continuation and
  there is no notice.
\<close>

theorem handleCallback_selection_rules:
  assumes "docs data = Some ds"
  shows "((\<exists>doc\<in>set ds. type doc = ''folder'') \<and> (\<exists>doc\<in>set ds. type doc \<noteq> ''folder'')
            \<longrightarrow> handleCallback data = [Info ''Please select either files or folders.''])
       \<and> ((\<forall>doc\<in>set ds. type doc \<noteq> ''folder'') \<and> 5 < length ds
            \<longrightarrow> handleCallback data = [Info ''You can only select a maximum of 5 files.''])
       \<and> (5 < length (filter (\<lambda>doc. type doc \<noteq> ''folder'') ds)
            \<longrightarrow> (\<forall>r. CallbackFunction r \<notin> set (handleCallback data)))
       \<and> ((\<forall>doc\<in>set ds. type doc = ''folder'')
            \<or> ((\<forall>doc\<in>set ds. type doc \<noteq> ''folder'') \<and> length ds \<le> 5)
            \<longrightarrow> handleCallback data = [CallbackFunction data])"
proof -
  let ?folders = "filter (\<lambda>doc. type doc = ''folder'') ds"
  let ?files = "filter (\<lambda>doc. type doc \<noteq> ''folder'') ds"
  have hc: "handleCallback data =
      (if 0 < length ?folders \<and> 0 < length ?files
       then [Info ''Please select either files or folders.'']
       else if 5 < length ?files then [Info ''You can only select a maximum of 5 files.'']
       else [CallbackFunction data])"
    using assms by (simp add: handleCallback_def Let_def)
  have all_files: "?files = ds" "?folders = []" if "\<forall>doc\<in>set ds. type doc \<noteq> ''folder''"
    using that by (simp_all add: filter_id_conv filter_empty_conv)
  have all_folders: "?files = []" if "\<forall>doc\<in>set ds. type doc = ''folder''"
    using that by (simp add: filter_empty_conv)
  have mixed: "handleCallback data = [Info ''Please select either files or folders.'']"
    if "\<exists>doc\<in>set ds. type doc = ''folder''" "\<exists>doc\<in>set ds. type doc \<noteq> ''folder''"
    using that unfolding hc filter_nonempty_iff by simp
  have many: "handleCallback data = [Info ''You can only select a maximum of 5 files.'']"
    if "\<forall>doc\<in>set ds. type doc \<noteq> ''folder''" "5 < length ds"
    unfolding hc using all_files[OF that(1)] that(2) by simp
  have rejected: "CallbackFunction r \<notin> set (handleCallback data)" if "5 < length ?files" for r
    unfolding hc using that by simp
  have accept1: "handleCallback data = [CallbackFunction data]"
    if "\<forall>doc\<in>set ds. type doc = ''folder''"
    unfolding hc using all_folders[OF that] by simp
  have accept2: "handleCallback data = [CallbackFunction data]"
    if "\<forall>doc\<in>set ds. type doc \<noteq> ''folder''" "length ds \<le> 5"
    unfolding hc using all_files[OF that(1)] that(2) by simp
  show ?thesis
    using mixed many rejected accept1 accept2 by blast
qed

text \<open>
  Scenarios B and C of the specification, and an accepted selection of two files: a
  folder with a file is refused as mixed, six files are refused as too many.
\<close>

theorem handleCallback_selection_rules_witness:
  "handleCallback
     \<lparr>action = ''picked'',
      docs = Some [\<lparr>docId = ''1'', type = ''folder''\<rparr>, \<lparr>docId = ''2'', type = ''file''\<rparr>]\<rparr>
     = [Info ''Please select either files or folders.'']
   \<and> handleCallback
     \<lparr>action = ''picked'',
      docs = Some [\<lparr>docId = ''1'', type = ''file''\<rparr>, \<lparr>docId = ''2'', type = ''file''\<rparr>,
                   \<lparr>docId = ''3'', type = ''file''\<rparr>, \<lparr>docId = ''4'', type = ''file''\<rparr>,
                   \<lparr>docId = ''5'', type = ''file''\<rparr>, \<lparr>docId = ''6'', type = ''file''\<rparr>]\<rparr>
     = [Info ''You can only select a maximum of 5 files.'']
   \<and> handleCallback
     \<lparr>action = ''picked'',
      docs = Some [\<lparr>docId = ''1'', type = ''file''\<rparr>, \<lparr>docId = ''2'', type = ''document''\<rparr>]\<rparr>
     = [CallbackFunction
          \<lparr>action = ''picked'',
           docs = Some [\<lparr>docId = ''1'', type = ''file''\<rparr>, \<lparr>docId = ''2'', type = ''document''\<rparr>]\<rparr>]"
proof -
  have b: "docs \<lparr>action = ''picked'',
      docs = Some [\<lparr>docId = ''1'', type = ''folder''\<rparr>, \<lparr>docId = ''2'', type = ''file''\<rparr>]\<rparr>
    = Some [\<lparr>docId = ''1'', type = ''folder''\<rparr>, \<lparr>docId = ''2'', type = ''file''\<rparr>]"
    by simp
  have c: "docs \<lparr>action = ''picked'',
      docs = Some [\<lparr>docId = ''1'', type = ''file''\<rparr>, \<lparr>docId = ''2'', type = ''file''\<rparr>,
                   \<lparr>docId = ''3'', type = ''file''\<rparr>, \<lparr>docId = ''4'', type = ''file''\<rparr>,
                   \<lparr>docId = ''5'', type = ''file''\<rparr>, \<lparr>docId = ''6'', type = ''file''\<rparr>]\<rparr>
    = Some [\<lparr>docId = ''1'', type = ''file''\<rparr>, \<lparr>docId = ''2'', type = ''file''\<rparr>,
            \<lparr>docId = ''3'', type = ''file''\<rparr>, \<lparr>docId = ''4'', type = ''file''\<rparr>,
            \<lparr>docId = ''5'', type = ''file''\<rparr>, \<lparr>docId = ''6'', type = ''file''\<rparr>]"
    by simp
  have a: "docs \<lparr>action = ''picked'',
      docs = Some [\<lparr>docId = ''1'', type = ''file''\<rparr>, \<lparr>docId = ''2'', type = ''document''\<rparr>]\<rparr>
    = Some [\<lparr>docId = ''1'', type = ''file''\<rparr>, \<lparr>docId = ''2'', type = ''document''\<rparr>]"
    by simp
  show ?thesis
    using handleCallback_selection_rules [OF b] handleCallback_selection_rules [OF c]
      handleCallback_selection_rules [OF a]
    by simp
qed

text \<open>
  C5. When the client id or the developer key is unset or empty, the function that the
  hook returns does one thing: it reports that Google Drive is not available. It does
  not open the picker, whatever the tool catalog holds.
\<close>

theorem picker_unavailable_without_configuration:
  assumes "\<not> truthy (NEXT_PUBLIC_GOOGLE_DRIVE_CLIENT_ID e)
           \<or> \<not> truthy (NEXT_PUBLIC_GOOGLE_DRIVE_DEVELOPER_KEY e)"
  shows "useOpenGoogleDrivePicker gid e toolsData
           = [Notice ''Google Drive is not available at the moment.'']
       \<and> (\<forall>cfg. OpenPicker cfg \<notin> set (useOpenGoogleDrivePicker gid e toolsData))"
  using assms by (auto simp add: useOpenGoogleDrivePicker_def Let_def)

theorem picker_unavailable_without_configuration_witness:
  "useOpenGoogleDrivePicker ''google_drive''
     \<lparr>NEXT_PUBLIC_GOOGLE_DRIVE_CLIENT_ID = Some ''client'',
      NEXT_PUBLIC_GOOGLE_DRIVE_DEVELOPER_KEY = None\<rparr>
     (Some [\<lparr>ManagedTool.name = ''google_drive'', is_visible = True, is_available = True,
              is_auth_required = True, token = Some ''tok''\<rparr>])
   = [Notice ''Google Drive is not available at the moment.'']"
proof -
  have h: "\<not> truthy (NEXT_PUBLIC_GOOGLE_DRIVE_CLIENT_ID
               \<lparr>NEXT_PUBLIC_GOOGLE_DRIVE_CLIENT_ID = Some ''client'',
                NEXT_PUBLIC_GOOGLE_DRIVE_DEVELOPER_KEY = None\<rparr>)
         \<or> \<not> truthy (NEXT_PUBLIC_GOOGLE_DRIVE_DEVELOPER_KEY
               \<lparr>NEXT_PUBLIC_GOOGLE_DRIVE_CLIENT_ID = Some ''client'',
                NEXT_PUBLIC_GOOGLE_DRIVE_DEVELOPER_KEY = None\<rparr>)"
    by (simp add: truthy_def)
  show ?thesis
    using picker_unavailable_without_configuration [OF h] by blast
qed

section \<open>The deployment configuration form\<close>

text \<open>
  Switching the deployment replaces the whole draft, whatever the draft was before.
  For a name found in the catalog whose \<open>env_vars\<close> do not list \<open>__proto__\<close>, the keys
  of the new draft are exactly the deployment's \<open>env_vars\<close>, each key once and each
  with the empty string as its value.
\<close>

lemma handleDeploymentChange_resets_draft:
  assumes "deployments = Some ds" and "find (\<lambda>d. Deployment.name d = nm) ds = Some d"
    and "''__proto__'' \<notin> set (env_vars d)"
  shows "fst ` set (envVariables (handleDeploymentChange deployments nm m)) = set (env_vars d)
       \<and> distinct (map fst (envVariables (handleDeploymentChange deployments nm m)))
       \<and> (\<forall>p\<in>set (envVariables (handleDeploymentChange deployments nm m)). snd p = [])"
proof -
  have draft: "envVariables (handleDeploymentChange deployments nm m)
      = foldl (\<lambda>acc envVar. assign acc envVar []) [] (env_vars d)"
    using assms(1,2) by (simp add: handleDeploymentChange_def emptyEnvVariables_def)
  have "set (env_vars d) - {''__proto__''} = set (env_vars d)"
    using assms(3) by simp
  then show ?thesis
    unfolding draft using assign_fold_invariant[of "[]" "env_vars d"] by simp
qed

text \<open>
  The new draft does not depend on the old one, the selected name is stored, and a name
  that is not found, or a catalog that has not loaded, gives the empty object.
\<close>

lemma handleDeploymentChange_replaces_draft:
  "deployment (handleDeploymentChange deployments nm m) = Some nm
   \<and> envVariables (handleDeploymentChange deployments nm m)
       = envVariables (handleDeploymentChange deployments nm m')"
  by (simp add: handleDeploymentChange_def)

lemma handleDeploymentChange_not_found:
  assumes "deployments = None
           \<or> (deployments = Some ds \<and> find (\<lambda>d. Deployment.name d = nm) ds = None)"
  shows "envVariables (handleDeploymentChange deployments nm m) = []"
  using assms by (auto simp add: handleDeploymentChange_def emptyEnvVariables_def)

text \<open>
  A draft with values for \<open>API_KEY\<close> and \<open>OLD\<close>, switched to the deployment \<open>prod\<close> of
  Scenario D: the new draft has \<open>API_KEY\<close> and \<open>REGION\<close>, both empty. Switched to a name
  that the catalog does not have, the draft is empty.
\<close>

lemma handleDeploymentChange_scenario_D:
  "envVariables
     (handleDeploymentChange
        (Some [\<lparr>Deployment.name = ''prod'', env_vars = [''API_KEY'', ''REGION'']\<rparr>]) ''prod''
        \<lparr>deployment = Some ''dev'', envVariables = [(''API_KEY'', ''x''), (''OLD'', ''y'')],
         isSubmitting = False\<rparr>)
   = [(''API_KEY'', []), (''REGION'', [])]
   \<and> envVariables
     (handleDeploymentChange
        (Some [\<lparr>Deployment.name = ''prod'', env_vars = [''API_KEY'', ''REGION'']\<rparr>]) ''gone''
        \<lparr>deployment = Some ''dev'', envVariables = [(''API_KEY'', ''x''), (''OLD'', ''y'')],
         isSubmitting = False\<rparr>)
   = []"
  by (simp add: handleDeploymentChange_def emptyEnvVariables_def assign_def)

text \<open>
  C6. The claim: after switching to a deployment, the key set of the new draft equals
  exactly that deployment's \<open>env_vars\<close>, every value the empty string. The code misses
  this for a deployment that lists the variable name \<open>__proto__\<close>. The \<open>reduce\<close> runs
  \<open>acc[envVar] = ''\<close> for that name as for every other, but on a plain object the
  assignment creates no property: the new draft has no key at all, where the claim
  asks for the one key \<open>__proto__\<close>.
\<close>

theorem handleDeploymentChange_proto_failing_input:
  "envVariables
     (handleDeploymentChange
        (Some [\<lparr>Deployment.name = ''prod'', env_vars = [''__proto__'']\<rparr>]) ''prod''
        \<lparr>deployment = None, envVariables = [], isSubmitting = False\<rparr>) = []
   \<and> fst ` set (envVariables
     (handleDeploymentChange
        (Some [\<lparr>Deployment.name = ''prod'', env_vars = [''__proto__'']\<rparr>]) ''prod''
        \<lparr>deployment = None, envVariables = [], isSubmitting = False\<rparr>)) \<noteq> set [''__proto__'']"
  by (simp add: handleDeploymentChange_def emptyEnvVariables_def assign_def)

text \<open>
  C7, as the code has it. Take a deployment with a non-empty name that is found in the
  catalog and whose \<open>env_vars\<close> are pairwise distinct, none of them an array index or
  \<open>__proto__\<close>; select it and edit any of its fields any number of times. Then submit
  sets \<open>isSubmitting\<close>, gives \<open>setParams\<close> a patch with the one field
  \<open>deploymentConfig\<close>, equal to \<open>key1=value1;key2=value2;...\<close> with the keys in the order
  of \<open>env_vars\<close> and each value the latest edit of its key, resets \<open>isSubmitting\<close>, and
  then calls the close continuation. With no deployment selected (the state is
  \<open>undefined\<close> or the empty string) submit does nothing.
\<close>

theorem handleSubmit_serializes_draft:
  assumes "deployments = Some ds" and "find (\<lambda>d. Deployment.name d = nm) ds = Some d"
    and "nm \<noteq> []"
    and "distinct (env_vars d)"
    and "\<forall>k\<in>set (env_vars d). \<not> isArrayIndex k \<and> k \<noteq> ''__proto__''"
    and "\<forall>e\<in>set edits. fst e \<in> set (env_vars d)"
  shows "handleSubmit (applyEdits edits (handleDeploymentChange deployments nm m)) =
           [SetIsSubmitting True,
            SetParams \<lparr>tools = None, fileIds = None,
                       deploymentConfig =
                         Some (join '';'' (map (\<lambda>k. k @ ''='' @ draftValue edits k) (env_vars d)))\<rparr>,
            SetIsSubmitting False,
            OnClose]
       \<and> (\<not> truthy (deployment m') \<longrightarrow> handleSubmit m' = [])"
proof -
  let ?m = "handleDeploymentChange deployments nm m"
  have "''__proto__'' \<notin> set (env_vars d)" using assms(5) by blast
  then have start: "envVariables ?m = map (\<lambda>k. (k, [])) (env_vars d)"
    using assign_fold_plain[of "env_vars d" "[]"] assms(1,2,4)
    by (simp add: handleDeploymentChange_def emptyEnvVariables_def)
  have plain: "\<forall>k\<in>set (env_vars d). \<not> isArrayIndex k" using assms(5) by blast
  have draft: "envVariables (applyEdits edits ?m) = map (\<lambda>k. (k, draftValue edits k)) (env_vars d)"
    and dep: "deployment (applyEdits edits ?m) = deployment ?m"
    using applyEdits_draft[OF assms(4) plain start assms(6)] by simp_all
  have sel: "truthy (deployment (applyEdits edits ?m))"
    unfolding dep using assms(3) by (simp add: handleDeploymentChange_def truthy_def)
  show ?thesis
    using sel by (simp add: handleSubmit_def draft serialize_plain[OF plain])
qed

text \<open>
  Scenario D of the specification: \<open>prod\<close> has \<open>API_KEY\<close> and \<open>REGION\<close>, the user sets
  them to \<open>x\<close> and \<open>us\<close>, and submit writes \<open>API_KEY=x;REGION=us\<close>.
\<close>

theorem handleSubmit_scenario_D:
  "handleSubmit
     (applyEdits [(''API_KEY'', ''x''), (''REGION'', ''us'')]
        (handleDeploymentChange
           (Some [\<lparr>Deployment.name = ''prod'', env_vars = [''API_KEY'', ''REGION'']\<rparr>]) ''prod''
           \<lparr>deployment = Some [], envVariables = [], isSubmitting = False\<rparr>))
   = [SetIsSubmitting True,
      SetParams \<lparr>tools = None, fileIds = None, deploymentConfig = Some ''API_KEY=x;REGION=us''\<rparr>,
      SetIsSubmitting False,
      OnClose]
   \<and> handleSubmit \<lparr>deployment = Some [], envVariables = [], isSubmitting = False\<rparr> = []"
proof -
  let ?d = "\<lparr>Deployment.name = ''prod'', env_vars = [''API_KEY'', ''REGION'']\<rparr>"
  let ?edits = "[(''API_KEY'', ''x''), (''REGION'', ''us'')]"
  let ?m0 = "\<lparr>deployment = Some [], envVariables = [], isSubmitting = False\<rparr>"
  have 1: "Some [?d] = Some [?d]" by simp
  have 2: "find (\<lambda>d. Deployment.name d = ''prod'') [?d] = Some ?d" by simp
  have 3: "''prod'' \<noteq> []" by simp
  have 4: "distinct (env_vars ?d)" by simp
  have 5: "\<forall>k\<in>set (env_vars ?d). \<not> isArrayIndex k \<and> k \<noteq> ''__proto__''"
    by (simp add: isDigit_def)
  have 6: "\<forall>e\<in>set ?edits. fst e \<in> set (env_vars ?d)" by simp
  have 7: "\<not> truthy (deployment ?m0)" by (simp add: truthy_def)
  show ?thesis
    using handleSubmit_serializes_draft [OF 1 2 3 4 5 6, of ?m0 ?m0] 7
    by (simp add: draftValue_def)
qed

text \<open>
  C7 as stated fails for a deployment whose \<open>env_vars\<close> are \<open>B\<close> and \<open>1\<close>, in this
  order: the array index \<open>1\<close> comes first in the string that submit writes.
\<close>

theorem handleSubmit_order_counterexample:
  "handleSubmit
     (handleDeploymentChange
        (Some [\<lparr>Deployment.name = ''prod'', env_vars = [''B'', ''1'']\<rparr>]) ''prod''
        \<lparr>deployment = None, envVariables = [], isSubmitting = False\<rparr>)
   = [SetIsSubmitting True,
      SetParams \<lparr>tools = None, fileIds = None, deploymentConfig = Some ''1=;B=''\<rparr>,
      SetIsSubmitting False,
      OnClose]"
  by (simp add: handleSubmit_def handleDeploymentChange_def emptyEnvVariables_def assign_def
      truthy_def serialize_def Object_entries_def isDigit_def toNumber_def)

end
